theory Spec2Isabelle
  imports Main "HOL-Library.Word" "HOL-Library.Signed_Division"
begin

section \<open>The frame writer of Malmo: \<^verbatim>\<open>Malmo/src/VideoFrameWriter.cpp\<close>\<close>

text \<open>
  The class \<^verbatim>\<open>VideoFrameWriter\<close> throttles timestamped video frames to a target frame
  rate, logs one line per accepted frame to \<^verbatim>\<open>frame_info.txt\<close>, and hands the accepted
  frames through a queue to a background thread (\<^verbatim>\<open>writeFrames\<close>) that converts the pixels
  and calls the encoder (\<^verbatim>\<open>doWrite\<close>, pure virtual, implemented per platform).

  The embedding is a record of the members of the class together with the two things the
  class writes to (the side file and the encoder), functions for the member functions, and
  a small-step function for the background thread. Each step of a thread is one
  lock-protected region (or one unsynchronised read) of the source, so that the
  interleavings of the two threads are sequences of these steps.
\<close>

subsection \<open>Times\<close>

text \<open>
  \<^verbatim>\<open>boost::posix_time::ptime\<close> and \<^verbatim>\<open>time_duration\<close> are 64-bit counts of ticks. The
  resolution of Boost's default build is the microsecond, so a time is modelled as an
  integer number of microseconds. The special values (\<^verbatim>\<open>not_a_date_time\<close>, the
  infinities) are not represented.
\<close>

type_synonym ptime = int
type_synonym time_duration = int

definition milliseconds :: "int \<Rightarrow> time_duration" where
  "milliseconds n = n * 1000"

datatype error =
    DivisionByZero        \<comment> \<open>integer division by zero (undefined behaviour)\<close>
  | IntegerOverflow       \<comment> \<open>signed overflow of an \<^verbatim>\<open>int\<close> (undefined behaviour)\<close>
  | OutOfBounds           \<comment> \<open>read past the end of \<^verbatim>\<open>frame.pixels\<close> (undefined behaviour)\<close>
  | BadArrayNewLength     \<comment> \<open>\<^verbatim>\<open>new char[n]\<close> with negative \<open>n\<close>\<close>
  | UnsupportedChannels   \<comment> \<open>the \<^verbatim>\<open>std::runtime_error\<close> of line 149\<close>

text \<open>
  \<^verbatim>\<open>time_duration::operator/(int)\<close> divides the tick count by the divisor with the
  integer division of C++, which truncates towards zero and is undefined for divisor 0.
\<close>

definition duration_div :: "time_duration \<Rightarrow> int \<Rightarrow> error + time_duration" where
  "duration_div d n = (if n = 0 then Inl DivisionByZero else Inr (d sdiv n))"

subsection \<open>Frames\<close>

type_synonym byte = "8 word"

text \<open>
  Modelled from the spec: the declaration of \<^verbatim>\<open>TimestampedVideoFrame\<close> is in a header
  that is not part of this file. These are the members that this file reads. Width and
  height are 16-bit integers and the channel count is an integer; all three are taken as
  integers here, which admits every value of the declared types. The position and
  orientation are floating-point numbers; they are only printed, so their type is a
  parameter. The pixels are a buffer of bytes.
\<close>

record 'r TimestampedVideoFrame =
  timestamp :: ptime
  width :: int
  height :: int
  channels :: int
  xPos :: 'r
  yPos :: 'r
  zPos :: 'r
  yaw :: 'r
  pitch :: 'r
  pixels :: "byte list"

subsection \<open>Pixel conversion (lines 131 to 149)\<close>

definition int_ok :: "int \<Rightarrow> bool" where
  "int_ok n \<longleftrightarrow> - (2 ^ 31) \<le> n \<and> n < 2 ^ 31"

text \<open>
  The loop of lines 136 to 139, started at index \<open>i\<close> with \<open>k\<close> iterations to go:
  \<^verbatim>\<open>out_pixels[i*3] = out_pixels[i*3 + 1] = out_pixels[i*3 + 2] = frame.pixels[i*4 + 3]\<close>.
\<close>

primrec extract_loop :: "byte list \<Rightarrow> nat \<Rightarrow> nat \<Rightarrow> byte list \<Rightarrow> error + byte list" where
  "extract_loop px i 0 out = Inr out"
| "extract_loop px i (Suc k) out =
     (if \<not> int_ok (int i * 4 + 3) then Inl IntegerOverflow
      else if length px \<le> i * 4 + 3 then Inl OutOfBounds
      else extract_loop px (Suc i) k
             (out[i * 3 + 2 := px ! (i * 4 + 3),
                  i * 3 + 1 := px ! (i * 4 + 3),
                  i * 3 := px ! (i * 4 + 3)]))"

text \<open>
  Lines 135 to 139: the buffer of \<open>width * height * 3\<close> bytes (\<^verbatim>\<open>new char[...]\<close>, whose
  initial content is indeterminate; \<open>init\<close> stands for it) filled by the loop.
\<close>

definition extract_depth_from ::
    "byte \<Rightarrow> 'r TimestampedVideoFrame \<Rightarrow> error + byte list" where
  "extract_depth_from init frame =
     (let n = width frame * height frame in
      if \<not> int_ok n \<or> \<not> int_ok (n * 3) then Inl IntegerOverflow
      else if n * 3 < 0 then Inl BadArrayNewLength
      else extract_loop (pixels frame) 0 (nat n) (replicate (nat (n * 3)) init))"

definition extract_depth :: "'r TimestampedVideoFrame \<Rightarrow> error + byte list" where
  "extract_depth frame = extract_depth_from 0 frame"

text \<open>The buffer that lines 131 to 149 pass to \<^verbatim>\<open>doWrite\<close>, or the error they end with.\<close>

definition convert_pixels :: "'r TimestampedVideoFrame \<Rightarrow> error + byte list" where
  "convert_pixels frame =
     (if channels frame = 4 then extract_depth frame
      else if channels frame = 3 then Inr (pixels frame)
      else Inl UnsupportedChannels)"

subsection \<open>The side file\<close>

text \<open>
  \<^verbatim>\<open>std::ofstream frame_info_stream\<close>, together with the file it writes: whether a file
  is open, whether an error bit is set, and the lines of \<^verbatim>\<open>frame_info.txt\<close>. Every output
  statement of the source ends with \<^verbatim>\<open>std::endl\<close>, so the unit of output is the line.
  Opening an open stream and closing a closed one set \<^verbatim>\<open>failbit\<close>; a successful open
  truncates the file and clears the error bits; output to a stream that is closed or has
  an error bit set writes nothing and leaves an error bit set. The file system itself is
  taken not to fail.
\<close>

record ofstream =
  stream_open :: bool
  stream_error :: bool
  file_lines :: "string list"

definition ofs_open :: "ofstream \<Rightarrow> ofstream" where
  "ofs_open st =
     (if stream_open st then st\<lparr>stream_error := True\<rparr>
      else st\<lparr>stream_open := True, stream_error := False, file_lines := []\<rparr>)"

definition ofs_close :: "ofstream \<Rightarrow> ofstream" where
  "ofs_close st =
     (if stream_open st then st\<lparr>stream_open := False\<rparr>
      else st\<lparr>stream_error := True\<rparr>)"

definition ofs_put_line :: "string \<Rightarrow> ofstream \<Rightarrow> ofstream" where
  "ofs_put_line l st =
     (if stream_open st \<and> \<not> stream_error st then st\<lparr>file_lines := file_lines st @ [l]\<rparr>
      else st\<lparr>stream_error := True\<rparr>)"

text \<open>Decimal output of integers, and \<^verbatim>\<open>std::setfill('0') << std::setw(6)\<close>.\<close>

definition digit_char :: "nat \<Rightarrow> char" where
  "digit_char d = ''0123456789'' ! (d mod 10)"

fun show_nat :: "nat \<Rightarrow> string" where
  "show_nat n = (if n < 10 then [digit_char n] else show_nat (n div 10) @ [digit_char (n mod 10)])"

declare show_nat.simps [simp del]

definition show_int :: "int \<Rightarrow> string" where
  "show_int i = (if i < 0 then CHR ''-'' # show_nat (nat (- i)) else show_nat (nat i))"

definition setw6_fill0 :: "string \<Rightarrow> string" where
  "setw6_fill0 str = replicate (6 - length str) CHR ''0'' @ str"

text \<open>
  The two printing functions of the libraries that line 166 and 167 call:
  \<^verbatim>\<open>boost::posix_time::to_iso_string\<close> and the stream output of a floating-point number.
\<close>

record 'r printers =
  to_iso_string :: "ptime \<Rightarrow> string"
  show_float :: "'r \<Rightarrow> string"

definition frame_name :: "nat \<Rightarrow> string" where
  "frame_name idx = ''frame_'' @ setw6_fill0 (show_nat idx)"

definition posdata :: "'r printers \<Rightarrow> 'r TimestampedVideoFrame \<Rightarrow> string" where
  "posdata P frame =
     ''xyzyp: '' @ show_float P (xPos frame) @ '' '' @ show_float P (yPos frame) @ '' ''
       @ show_float P (zPos frame) @ '' '' @ show_float P (yaw frame) @ '' ''
       @ show_float P (pitch frame)"

definition frame_info_line :: "'r printers \<Rightarrow> nat \<Rightarrow> 'r TimestampedVideoFrame \<Rightarrow> string" where
  "frame_info_line P idx frame =
     to_iso_string P (timestamp frame) @ '' '' @ frame_name idx @ '' '' @ posdata P frame"

subsection \<open>The writer\<close>

text \<open>
  The background thread \<^verbatim>\<open>frame_writer_thread\<close>, which runs \<^verbatim>\<open>writeFrames\<close>. Its
  program points are: \<open>LoopHead\<close>, about to read \<^verbatim>\<open>is_open\<close> (line 104); \<open>Waiting\<close>, in
  the wait for \<^verbatim>\<open>frames_available\<close> (lines 105 to 111); \<open>Draining\<close>, about to pop
  (lines 115 to 122); \<open>Popped x\<close>, holding the local \<^verbatim>\<open>frame\<close> after the pop, where
  \<open>x = None\<close> when the queue was empty and \<^verbatim>\<open>frame\<close> is still default-constructed
  (lines 124 to 151). The local \<^verbatim>\<open>count\<close> is kept beside the program point.
\<close>

datatype 'r pc = LoopHead | Waiting | Draining | Popped "'r TimestampedVideoFrame option"

datatype 'r thread =
    NotAThread                 \<comment> \<open>default-constructed, or joined\<close>
  | Running "'r pc" nat        \<comment> \<open>program point and \<^verbatim>\<open>count\<close>\<close>
  | Returned                   \<comment> \<open>\<^verbatim>\<open>writeFrames\<close> has returned\<close>
  | Failed error               \<comment> \<open>\<^verbatim>\<open>writeFrames\<close> ended with an exception or undefined behaviour\<close>

text \<open>One call of \<^verbatim>\<open>doWrite(pixels, width, height, count)\<close>.\<close>

type_synonym sink_call = "byte list \<times> int \<times> int \<times> nat"

text \<open>
  Modelled from the spec: the declaration of \<^verbatim>\<open>VideoFrameWriter\<close> is in a header that
  is not part of this file. These are the members of the class that this file uses
  (without the path members and the mutexes), and \<open>sink\<close>, the calls of \<^verbatim>\<open>doWrite\<close> made
  so far. The two counters \<^verbatim>\<open>frame_index\<close> and \<^verbatim>\<open>count\<close> start at 0 and are only
  incremented; they are natural numbers here, which is exact up to the largest value of
  their integer type.
\<close>

record 'r VideoFrameWriter =
  vw_width :: int
  vw_height :: int
  frames_per_second :: int
  is_open :: bool
  frame_duration :: time_duration
  frame_info_stream :: ofstream
  start_time :: ptime
  last_timestamp :: ptime
  frame_index :: nat
  frames_available :: bool
  frame_buffer :: "'r TimestampedVideoFrame list"
  frame_writer_thread :: "'r thread"
  sink :: "sink_call list"

text \<open>
  The constructor (lines 35 to 50). It initialises the members of its initialiser list;
  the stream, the queue and the thread are default-constructed; the other members keep
  whatever the storage \<open>raw\<close> held. The file written so far, if any, is that of \<open>raw\<close> too.
\<close>

definition VideoFrameWriter_new ::
    "'r VideoFrameWriter \<Rightarrow> int \<Rightarrow> int \<Rightarrow> int \<Rightarrow> error + 'r VideoFrameWriter" where
  "VideoFrameWriter_new raw w h fps =
     (case duration_div (milliseconds 1000) fps of
        Inl e \<Rightarrow> Inl e
      | Inr d \<Rightarrow> Inr (raw\<lparr>vw_width := w, vw_height := h, frames_per_second := fps,
                         is_open := False, frame_duration := d,
                         frame_info_stream := (frame_info_stream raw)
                            \<lparr>stream_open := False, stream_error := False\<rparr>,
                         frame_buffer := [], frame_writer_thread := NotAThread,
                         sink := []\<rparr>))"

subsection \<open>The producer: \<^verbatim>\<open>write\<close> (lines 156 to 185)\<close>

text \<open>The test of line 160.\<close>

definition accepts :: "'r VideoFrameWriter \<Rightarrow> 'r TimestampedVideoFrame \<Rightarrow> bool" where
  "accepts s frame \<longleftrightarrow> timestamp frame - last_timestamp s \<ge> frame_duration s"

text \<open>Lines 161 to 169: the new \<^verbatim>\<open>last_timestamp\<close>, the line of the side file, the index.\<close>

definition log_frame ::
    "'r printers \<Rightarrow> 'r TimestampedVideoFrame \<Rightarrow> 'r VideoFrameWriter \<Rightarrow> 'r VideoFrameWriter" where
  "log_frame P frame s =
     s\<lparr>last_timestamp := timestamp frame,
       frame_info_stream :=
         ofs_put_line (frame_info_line P (frame_index s) frame) (frame_info_stream s),
       frame_index := frame_index s + 1\<rparr>"

text \<open>Lines 171 to 175: the push, under \<^verbatim>\<open>frame_buffer_mutex\<close>.\<close>

definition enqueue ::
    "'r TimestampedVideoFrame \<Rightarrow> 'r VideoFrameWriter \<Rightarrow> 'r VideoFrameWriter" where
  "enqueue frame s = s\<lparr>frame_buffer := frame_buffer s @ [frame]\<rparr>"

text \<open>
  Lines 177 to 183 (and 89 to 95 of \<^verbatim>\<open>close\<close>): the flag, under
  \<^verbatim>\<open>frames_available_mutex\<close>, and the notification. A thread in the wait of line 109
  proceeds once the flag is set, which is what the notification achieves.
\<close>

definition notify :: "'r VideoFrameWriter \<Rightarrow> 'r VideoFrameWriter" where
  "notify s = s\<lparr>frames_available := True\<rparr>"

definition "write" ::
    "'r printers \<Rightarrow> 'r TimestampedVideoFrame \<Rightarrow> 'r VideoFrameWriter \<Rightarrow> 'r VideoFrameWriter" where
  "write P frame s =
     (if accepts s frame then notify (enqueue frame (log_frame P frame s)) else s)"

subsection \<open>The consumer: \<^verbatim>\<open>writeFrames\<close> (lines 101 to 154)\<close>

definition doWrite ::
    "byte list \<Rightarrow> int \<Rightarrow> int \<Rightarrow> nat \<Rightarrow> 'r VideoFrameWriter \<Rightarrow> 'r VideoFrameWriter" where
  "doWrite px w h idx s = s\<lparr>sink := sink s @ [(px, w, h, idx)]\<rparr>"

text \<open>Lines 124 to 129: the popped value has width 0; clear the flag and leave the drain.\<close>

definition end_drain :: "nat \<Rightarrow> 'r VideoFrameWriter \<Rightarrow> 'r VideoFrameWriter" where
  "end_drain cnt s = s\<lparr>frames_available := False, frame_writer_thread := Running LoopHead cnt\<rparr>"

text \<open>Lines 131 to 151 for a popped frame of non-zero width.\<close>

definition forward ::
    "'r TimestampedVideoFrame \<Rightarrow> nat \<Rightarrow> 'r VideoFrameWriter \<Rightarrow> 'r VideoFrameWriter" where
  "forward frame cnt s =
     (case convert_pixels frame of
        Inl e \<Rightarrow> s\<lparr>frame_writer_thread := Failed e\<rparr>
      | Inr px \<Rightarrow> (doWrite px (width frame) (height frame) cnt s)
                   \<lparr>frame_writer_thread := Running Draining (cnt + 1)\<rparr>)"

text \<open>
  Modelled from the spec: the default constructor of \<^verbatim>\<open>TimestampedVideoFrame\<close> is not
  part of this file; the frame it constructs is the no-frame value of width 0. So
  \<open>Popped None\<close> takes the branch of line 124, as does a popped frame whose width is 0.

  One step of the thread. A thread that waits while the flag is clear does not move. A
  thread that has ended does not move either: \<open>Failed\<close> stands for the exception of line
  149 or of the allocation leaving \<^verbatim>\<open>writeFrames\<close>, and for undefined behaviour. (Boost
  ends the whole process when an exception leaves a thread function; the model lets the
  producer go on, which admits more behaviour, not less.)
\<close>

definition consumer_step :: "'r VideoFrameWriter \<Rightarrow> 'r VideoFrameWriter" where
  "consumer_step s =
     (case frame_writer_thread s of
        Running LoopHead cnt \<Rightarrow>
          if is_open s then s\<lparr>frame_writer_thread := Running Waiting cnt\<rparr>
          else s\<lparr>frame_writer_thread := Returned\<rparr>
      | Running Waiting cnt \<Rightarrow>
          if frames_available s then s\<lparr>frame_writer_thread := Running Draining cnt\<rparr> else s
      | Running Draining cnt \<Rightarrow>
          (case frame_buffer s of
             [] \<Rightarrow> s\<lparr>frame_writer_thread := Running (Popped None) cnt\<rparr>
           | frame # rest \<Rightarrow>
               s\<lparr>frame_buffer := rest, frame_writer_thread := Running (Popped (Some frame)) cnt\<rparr>)
      | Running (Popped None) cnt \<Rightarrow> end_drain cnt s
      | Running (Popped (Some frame)) cnt \<Rightarrow>
          if width frame = 0 then end_drain cnt s else forward frame cnt s
      | _ \<Rightarrow> s)"

text \<open>
  \<^verbatim>\<open>frame_writer_thread.join()\<close> (line 97): the caller is blocked, so the thread runs
  alone until it has ended, and the handle is not a thread afterwards. If the thread comes
  to wait with the flag clear, nobody is left to set the flag and the join never returns:
  the result is \<open>None\<close>. The measure is for the proof that the recursion ends.
\<close>

fun join_measure :: "'r VideoFrameWriter \<Rightarrow> nat" where
  "join_measure s =
     (case frame_writer_thread s of
        Running LoopHead cnt \<Rightarrow>
          if frames_available s then 2 * length (frame_buffer s) + 6 else 1
      | Running Waiting cnt \<Rightarrow>
          if frames_available s then 2 * length (frame_buffer s) + 5 else 0
      | Running Draining cnt \<Rightarrow> 2 * length (frame_buffer s) + 4
      | Running (Popped None) cnt \<Rightarrow> 2
      | Running (Popped (Some frame)) cnt \<Rightarrow>
          if width frame = 0 then 2 else 2 * length (frame_buffer s) + 5
      | _ \<Rightarrow> 0)"

function join :: "'r VideoFrameWriter \<Rightarrow> 'r VideoFrameWriter option" where
  "join s =
     (case frame_writer_thread s of
        NotAThread \<Rightarrow> Some s
      | Returned \<Rightarrow> Some (s\<lparr>frame_writer_thread := NotAThread\<rparr>)
      | Failed e \<Rightarrow> Some (s\<lparr>frame_writer_thread := NotAThread\<rparr>)
      | Running p cnt \<Rightarrow>
          if p = Waiting \<and> \<not> frames_available s then None else join (consumer_step s))"
  by pat_completeness auto
termination
proof (relation "measure join_measure")
  show "wf (measure join_measure)" by simp
next
  fix s :: "'r VideoFrameWriter" and p cnt
  assume run: "frame_writer_thread s = Running p cnt"
    and go: "\<not> (p = Waiting \<and> \<not> frames_available s)"
  show "(consumer_step s, s) \<in> measure join_measure"
  proof (cases p)
    case LoopHead
    with run show ?thesis by (simp add: consumer_step_def)
  next
    case Waiting
    with run go show ?thesis by (simp add: consumer_step_def)
  next
    case Draining
    with run show ?thesis by (cases "frame_buffer s") (simp_all add: consumer_step_def)
  next
    case (Popped x)
    with run show ?thesis
      by (cases x)
        (simp_all add: consumer_step_def end_drain_def forward_def doWrite_def
          split: sum.splits)
  qed
qed

declare join.simps [simp del]

subsection \<open>The life cycle: \<^verbatim>\<open>open\<close>, \<^verbatim>\<open>close\<close>, the destructor (lines 52 to 99)\<close>

text \<open>Lines 85 to 87.\<close>

definition close_begin :: "'r VideoFrameWriter \<Rightarrow> 'r VideoFrameWriter" where
  "close_begin s = s\<lparr>frame_info_stream := ofs_close (frame_info_stream s), is_open := False\<rparr>"

definition close :: "'r VideoFrameWriter \<Rightarrow> 'r VideoFrameWriter option" where
  "close s = (if is_open s then join (notify (close_begin s)) else Some s)"

text \<open>
  Lines 61 to 74, with the reading \<open>now\<close> of the clock. The new thread starts
  \<^verbatim>\<open>writeFrames\<close> with \<^verbatim>\<open>count = 0\<close>. The queue is not touched.
\<close>

definition open_body :: "ptime \<Rightarrow> 'r VideoFrameWriter \<Rightarrow> 'r VideoFrameWriter" where
  "open_body now s =
     s\<lparr>frame_info_stream :=
         ofs_put_line (''height='' @ show_int (vw_height s))
           (ofs_put_line (''width='' @ show_int (vw_width s))
              (ofs_open (frame_info_stream s))),
       is_open := True,
       start_time := now,
       last_timestamp := now - frame_duration s,
       frame_index := 0,
       frames_available := False,
       frame_writer_thread := Running LoopHead 0\<rparr>"

definition "open" :: "ptime \<Rightarrow> 'r VideoFrameWriter \<Rightarrow> 'r VideoFrameWriter option" where
  "open now s = (case close s of None \<Rightarrow> None | Some s' \<Rightarrow> Some (open_body now s'))"

definition isOpen :: "'r VideoFrameWriter \<Rightarrow> bool" where
  "isOpen s = is_open s"

definition destructor :: "'r VideoFrameWriter \<Rightarrow> 'r VideoFrameWriter option" where
  "destructor s = close s"

subsection \<open>Interleavings of the two threads\<close>

text \<open>
  The steps that the two threads take between an \<^verbatim>\<open>open\<close> and the join of the next
  \<^verbatim>\<open>close\<close>. \<open>Write\<close> is a whole call of \<^verbatim>\<open>write\<close>. \<open>Submit\<close> and \<open>Signal\<close> are its two
  halves (lines 158 to 175, lines 177 to 183), for the interleavings in which the
  consumer runs between them; \<open>Shutdown\<close> is the first half of \<^verbatim>\<open>close\<close> (lines 84 to 87),
  whose second half is \<open>Signal\<close> again; \<open>Consumer\<close> is one step of the background thread.
  Every sequence of actions is admitted, which is more than the program can do.

  Lines 160 to 169 of \<^verbatim>\<open>write\<close> read and change only \<^verbatim>\<open>last_timestamp\<close>,
  \<^verbatim>\<open>frame_index\<close> and the stream, which the consumer does not touch; so a step of the
  consumer between them and the push has the effect of the same step before them, and
  \<open>Submit\<close> stands for both. \<^verbatim>\<open>close\<close> touches the stream (line 85) but nothing that
  the test of line 160 reads; so the place of a \<open>Write\<close> or \<open>Submit\<close> among the actions,
  before or after \<open>Shutdown\<close>, is the place of its output to the stream (line 167).
\<close>

datatype 'r action =
    Write "'r TimestampedVideoFrame"
  | Submit "'r TimestampedVideoFrame"
  | Signal
  | Shutdown
  | Consumer

fun act :: "'r printers \<Rightarrow> 'r action \<Rightarrow> 'r VideoFrameWriter \<Rightarrow> 'r VideoFrameWriter" where
  "act P (Write frame) s = write P frame s"
| "act P (Submit frame) s = (if accepts s frame then enqueue frame (log_frame P frame s) else s)"
| "act P Signal s = notify s"
| "act P Shutdown s = (if is_open s then close_begin s else s)"
| "act P Consumer s = consumer_step s"

fun run :: "'r printers \<Rightarrow> 'r action list \<Rightarrow> 'r VideoFrameWriter \<Rightarrow> 'r VideoFrameWriter" where
  "run P [] s = s"
| "run P (a # as) s = run P as (act P a s)"

text \<open>The frame that an action submits, if any, and the frames that a run accepts.\<close>

fun submitted :: "'r action \<Rightarrow> 'r TimestampedVideoFrame option" where
  "submitted (Write frame) = Some frame"
| "submitted (Submit frame) = Some frame"
| "submitted _ = None"

fun accepted ::
    "'r printers \<Rightarrow> 'r action list \<Rightarrow> 'r VideoFrameWriter \<Rightarrow> 'r TimestampedVideoFrame list" where
  "accepted P [] s = []"
| "accepted P (a # as) s =
     (case submitted a of
        None \<Rightarrow> accepted P as (act P a s)
      | Some frame \<Rightarrow>
          if accepts s frame then frame # accepted P as (act P a s)
          else accepted P as (act P a s))"



subsection \<open>The steps within a call of \<^verbatim>\<open>write\<close>\<close>





subsection \<open>Notions used in the statements\<close>





text \<open>The call of \<^verbatim>\<open>doWrite\<close> for a frame and an index, and the calls for a list of frames.\<close>

definition sink_call :: "'r TimestampedVideoFrame \<Rightarrow> nat \<Rightarrow> sink_call" where
  "sink_call frame idx =
     ((case convert_pixels frame of Inl e \<Rightarrow> [] | Inr px \<Rightarrow> px), width frame, height frame, idx)"

fun sink_calls :: "nat \<Rightarrow> 'r TimestampedVideoFrame list \<Rightarrow> sink_call list" where
  "sink_calls idx [] = []"
| "sink_calls idx (frame # frames) = sink_call frame idx # sink_calls (idx + 1) frames"

text \<open>The lines of the side file for a list of frames, from index \<open>idx\<close> on.\<close>

fun info_lines :: "'r printers \<Rightarrow> nat \<Rightarrow> 'r TimestampedVideoFrame list \<Rightarrow> string list" where
  "info_lines P idx [] = []"
| "info_lines P idx (frame # frames) = frame_info_line P idx frame # info_lines P (idx + 1) frames"






text \<open>
  The thread has ended: \<^verbatim>\<open>writeFrames\<close> has returned, or was left by an exception.
\<close>

definition ended :: "'r thread \<Rightarrow> bool" where
  "ended th = (case th of Returned \<Rightarrow> True | Failed e \<Rightarrow> True | _ \<Rightarrow> False)"

text \<open>
  What holds between the calls of the member functions: the stream is open exactly when
  \<^verbatim>\<open>is_open\<close> is set, and there is a thread only then.
\<close>

definition between_calls :: "'r VideoFrameWriter \<Rightarrow> bool" where
  "between_calls s \<longleftrightarrow>
     (stream_open (frame_info_stream s) \<longleftrightarrow> is_open s) \<and>
     (if is_open s then frame_writer_thread s \<noteq> NotAThread \<and> frame_writer_thread s \<noteq> Returned
      else frame_writer_thread s = NotAThread)"

subsection \<open>Concrete instances\<close>

text \<open>
  Storage with arbitrary content for the constructor to work on, and printers for
  positions that are integers.
\<close>

definition raw_storage :: "int VideoFrameWriter" where
  "raw_storage =
     \<lparr>vw_width = 0, vw_height = 0, frames_per_second = 0, is_open = True,
      frame_duration = 0,
      frame_info_stream = \<lparr>stream_open = False, stream_error = False, file_lines = []\<rparr>,
      start_time = 0, last_timestamp = 0, frame_index = 7, frames_available = True,
      frame_buffer = [], frame_writer_thread = NotAThread, sink = []\<rparr>"

definition plain_printers :: "int printers" where
  "plain_printers = \<lparr>to_iso_string = show_int, show_float = show_int\<rparr>"



definition rgb_frame :: "int TimestampedVideoFrame" where
  "rgb_frame =
     \<lparr>timestamp = 0, width = 2, height = 1, channels = 3,
      xPos = 0, yPos = 64, zPos = 0, yaw = 90, pitch = 0,
      pixels = [10, 20, 30, 40, 50, 60]\<rparr>"

definition frame_at :: "ptime \<Rightarrow> int TimestampedVideoFrame" where
  "frame_at t = rgb_frame\<lparr>timestamp := t\<rparr>"

definition fresh_writer :: "int VideoFrameWriter" where
  "fresh_writer =
     \<lparr>vw_width = 320, vw_height = 240, frames_per_second = 10, is_open = False,
      frame_duration = 100000,
      frame_info_stream = \<lparr>stream_open = False, stream_error = False, file_lines = []\<rparr>,
      start_time = 0, last_timestamp = 0, frame_index = 7, frames_available = True,
      frame_buffer = [], frame_writer_thread = NotAThread, sink = []\<rparr>"

definition open_writer :: "int VideoFrameWriter" where
  "open_writer =
     \<lparr>vw_width = 320, vw_height = 240, frames_per_second = 10, is_open = True,
      frame_duration = 100000,
      frame_info_stream =
        \<lparr>stream_open = True, stream_error = False,
         file_lines = [''width=320'', ''height=240'']\<rparr>,
      start_time = 5000000, last_timestamp = 4900000, frame_index = 0,
      frames_available = False,
      frame_buffer = [], frame_writer_thread = Running LoopHead 0, sink = []\<rparr>"

text \<open>Frames at intervals of 100 milliseconds, from time \<open>t\<close> on.\<close>

fun steady_frames :: "ptime \<Rightarrow> nat \<Rightarrow> int TimestampedVideoFrame list" where
  "steady_frames t 0 = []"
| "steady_frames t (Suc n) = frame_at t # steady_frames (t + 100000) n"

text \<open>The writer after \<^verbatim>\<open>close\<close>; a frame with two channels; a writer about to pop it.\<close>

definition closed_writer :: "int VideoFrameWriter" where
  "closed_writer =
     \<lparr>vw_width = 320, vw_height = 240, frames_per_second = 10, is_open = False,
      frame_duration = 100000,
      frame_info_stream =
        \<lparr>stream_open = False, stream_error = False,
         file_lines = [''width=320'', ''height=240'']\<rparr>,
      start_time = 5000000, last_timestamp = 4900000, frame_index = 0,
      frames_available = True,
      frame_buffer = [], frame_writer_thread = NotAThread, sink = []\<rparr>"

definition gray_frame :: "int TimestampedVideoFrame" where
  "gray_frame =
     \<lparr>timestamp = 5000000, width = 2, height = 1, channels = 2,
      xPos = 0, yPos = 64, zPos = 0, yaw = 90, pitch = 0,
      pixels = [10, 255, 20, 255]\<rparr>"

definition draining_writer :: "int VideoFrameWriter" where
  "draining_writer =
     run plain_printers [Write gray_frame, Write (frame_at 5100000), Consumer, Consumer]
       open_writer"

text \<open>
  An open writer with one accepted frame in the queue, which the consumer is about to pop.
\<close>

definition busy_writer :: "int VideoFrameWriter" where
  "busy_writer = run plain_printers [Consumer, Write (frame_at 5000000), Consumer] open_writer"





section \<open>Properties\<close>

subsection \<open>Evaluation of the concrete instances\<close>

lemma show_nat_numeral:
  "show_nat (numeral k) =
     (if numeral k < (10::nat) then [digit_char (numeral k)]
      else show_nat (numeral k div 10) @ [digit_char (numeral k mod 10)])"
  "show_nat 0 = ''0''" "show_nat (Suc 0) = ''1''"
  by (simp_all add: show_nat.simps [of "numeral k"] show_nat.simps [of 0]
      show_nat.simps [of "Suc 0"] digit_char_def)

lemma replicate_numeral: "replicate (numeral k) x = x # replicate (pred_numeral k) x"
  by (simp add: numeral_eq_Suc)

lemmas show_eval = show_nat_numeral replicate_numeral show_int_def digit_char_def frame_name_def
  setw6_fill0_def frame_info_line_def posdata_def plain_printers_def

lemma show_int_320: "show_int 320 = ''320''" "show_int 240 = ''240''"
  by (simp_all add: show_eval)

lemma fresh_writer_new: "VideoFrameWriter_new raw_storage 320 240 10 = Inr fresh_writer"
  by (simp add: VideoFrameWriter_new_def duration_div_def milliseconds_def
      signed_divide_int_def raw_storage_def fresh_writer_def)

lemma open_writer_open: "open 5000000 fresh_writer = Some open_writer"
  by (simp add: open_def close_def open_body_def fresh_writer_def open_writer_def
      ofs_open_def ofs_put_line_def show_int_320)

lemma close_open_writer: "close open_writer = Some closed_writer"
  by (simp add: close_def close_begin_def notify_def open_writer_def closed_writer_def
      ofs_close_def join.simps consumer_step_def)

subsection \<open>What the consumer leaves alone\<close>

lemma consumer_step_keeps [simp]:
  "frame_duration (consumer_step s) = frame_duration s"
  "is_open (consumer_step s) = is_open s"
  "frame_info_stream (consumer_step s) = frame_info_stream s"
  "last_timestamp (consumer_step s) = last_timestamp s"
  "frame_index (consumer_step s) = frame_index s"
  "start_time (consumer_step s) = start_time s"
  "vw_width (consumer_step s) = vw_width s"
  "vw_height (consumer_step s) = vw_height s"
  "frames_per_second (consumer_step s) = frames_per_second s"
  by (simp_all add: consumer_step_def end_drain_def forward_def doWrite_def
      split: thread.splits pc.splits option.splits list.splits sum.splits)

lemma join_keeps:
  assumes step: "\<And>t. g (consumer_step t) = g t"
    and handle: "\<And>t th. g (t\<lparr>frame_writer_thread := th\<rparr>) = g t"
    and j: "join s = Some s'"
  shows "g s' = g s"
  using j
proof (induction s rule: join.induct)
  case (1 s)
  show ?case
  proof (cases "frame_writer_thread s")
    case (Running p cnt)
    with "1.prems" have go: "\<not> (p = Waiting \<and> \<not> frames_available s)"
      and j: "join (consumer_step s) = Some s'"
      by (auto simp: join.simps [of s] split: if_splits)
    from "1.IH" [OF Running go j] show ?thesis by (simp add: step)
  qed (use "1.prems" in \<open>auto simp: join.simps [of s] handle\<close>)
qed

lemma join_frame_duration: "join s = Some s' \<Longrightarrow> frame_duration s' = frame_duration s"
  by (rule join_keeps [where g = frame_duration]) simp_all

lemma join_is_open: "join s = Some s' \<Longrightarrow> is_open s' = is_open s"
  by (rule join_keeps [where g = is_open]) simp_all

lemma join_frame_info_stream:
  "join s = Some s' \<Longrightarrow> frame_info_stream s' = frame_info_stream s"
  by (rule join_keeps [where g = frame_info_stream]) simp_all

lemma join_last_timestamp: "join s = Some s' \<Longrightarrow> last_timestamp s' = last_timestamp s"
  by (rule join_keeps [where g = last_timestamp]) simp_all

lemma join_frame_index: "join s = Some s' \<Longrightarrow> frame_index s' = frame_index s"
  by (rule join_keeps [where g = frame_index]) simp_all

lemma join_thread: "join s = Some s' \<Longrightarrow> frame_writer_thread s' = NotAThread"
proof (induction s rule: join.induct)
  case (1 s)
  show ?case
  proof (cases "frame_writer_thread s")
    case (Running p cnt)
    with "1.prems" have go: "\<not> (p = Waiting \<and> \<not> frames_available s)"
      and j: "join (consumer_step s) = Some s'"
      by (auto simp: join.simps [of s] split: if_splits)
    from "1.IH" [OF Running go j] show ?thesis .
  qed (use "1.prems" in \<open>auto simp: join.simps [of s]\<close>)
qed

lemma close_frame_duration: "close s = Some s' \<Longrightarrow> frame_duration s' = frame_duration s"
  by (auto simp: close_def close_begin_def notify_def dest!: join_frame_duration split: if_splits)

lemma open_frame_duration: "open now s = Some s' \<Longrightarrow> frame_duration s' = frame_duration s"
  by (auto simp: open_def open_body_def dest: close_frame_duration split: option.splits)

lemma act_frame_duration [simp]: "frame_duration (act P a s) = frame_duration s"
  by (cases a) (simp_all add: write_def notify_def enqueue_def log_frame_def close_begin_def)

lemma run_frame_duration [simp]: "frame_duration (run P as s) = frame_duration s"
  by (induction as arbitrary: s) simp_all

lemma new_frame_duration:
  "fps \<noteq> 0 \<Longrightarrow>
     \<exists>s. VideoFrameWriter_new raw w h fps = Inr s \<and> frame_duration s = 1000000 sdiv fps"
  by (simp add: VideoFrameWriter_new_def duration_div_def milliseconds_def)

lemma sdiv_pos_bounds:
  fixes n :: int
  assumes "0 < n"
  shows "(1000000 sdiv n) * n \<le> 1000000" "1000000 < (1000000 sdiv n + 1) * n"
proof -
  have eq: "(1000000::int) sdiv n = 1000000 div n"
    using assms by (simp add: signed_divide_int_def)
  have e: "1000000 div n * n = 1000000 - 1000000 mod n"
    using div_mult_mod_eq [of 1000000 n] by linarith
  have m: "0 \<le> 1000000 mod n" "1000000 mod n < n" using assms by simp_all
  show "(1000000 sdiv n) * n \<le> 1000000" using m by (simp add: eq e)
  show "1000000 < (1000000 sdiv n + 1) * n" using m by (simp add: eq e distrib_right)
qed


subsection \<open>The frame duration\<close>

text \<open>
  C8, as amended. The frame duration is fixed at construction: it is the tick count of
  \<^verbatim>\<open>milliseconds(1000)\<close>, which is 1000000 microseconds, divided by \<open>frames_per_second\<close>
  with the truncating integer division, so that for a positive rate less than one
  microsecond is discarded (\<open>frames_per_second = 3\<close> gives 333333 microseconds); and no
  step of either thread, no \<^verbatim>\<open>close\<close> and no \<^verbatim>\<open>open\<close> changes it afterwards.
\<close>

theorem frame_duration_is_ticks_divided:
  "(fps \<noteq> 0 \<longrightarrow>
      (\<exists>s. VideoFrameWriter_new raw w h fps = Inr s \<and>
           frame_duration s = milliseconds 1000 sdiv fps \<and>
           milliseconds 1000 = 1000000 \<and>
           (0 < fps \<longrightarrow> frame_duration s * fps \<le> 1000000 \<and>
                        1000000 < (frame_duration s + 1) * fps))) \<and>
   frame_duration (run P as t) = frame_duration t \<and>
   (\<forall>t'. close t = Some t' \<longrightarrow> frame_duration t' = frame_duration t) \<and>
   (\<forall>t'. open now t = Some t' \<longrightarrow> frame_duration t' = frame_duration t)"
  using new_frame_duration [of fps raw w h] sdiv_pos_bounds [of fps]
  by (auto simp: milliseconds_def close_frame_duration open_frame_duration)

theorem frame_duration_is_ticks_divided_witness:
  "(3::int) \<noteq> 0 \<and> (0::int) < 3 \<and>
   (\<exists>s. VideoFrameWriter_new raw_storage 320 240 3 = Inr s \<and> frame_duration s = 333333 \<and>
        frame_duration s * 3 \<le> 1000000 \<and> 1000000 < (frame_duration s + 1) * 3) \<and>
   close open_writer = Some closed_writer \<and>
   frame_duration closed_writer = frame_duration open_writer \<and>
   open 5000000 fresh_writer = Some open_writer \<and>
   frame_duration open_writer = frame_duration fresh_writer"
proof -
  note T = frame_duration_is_ticks_divided
    [where fps = 3 and raw = raw_storage and w = 320 and h = 240 and P = plain_printers
       and as = "[]" and t = open_writer and now = 5000000]
  note U = frame_duration_is_ticks_divided
    [where fps = 3 and raw = raw_storage and w = 320 and h = 240 and P = plain_printers
       and as = "[]" and t = fresh_writer and now = 5000000]
  have n: "(3::int) \<noteq> 0" and pos: "(0::int) < 3" by simp_all
  from T [THEN conjunct1, THEN mp, OF n] pos
  have 1: "\<exists>s. VideoFrameWriter_new raw_storage 320 240 3 = Inr s \<and> frame_duration s = 333333 \<and>
        frame_duration s * 3 \<le> 1000000 \<and> 1000000 < (frame_duration s + 1) * 3"
    by (auto simp: milliseconds_def signed_divide_int_def)
  have 2: "frame_duration closed_writer = frame_duration open_writer"
    by (rule T [THEN conjunct2, THEN conjunct2, THEN conjunct1, THEN spec, THEN mp,
          OF close_open_writer])
  have 3: "frame_duration open_writer = frame_duration fresh_writer"
    by (rule U [THEN conjunct2, THEN conjunct2, THEN conjunct2, THEN spec, THEN mp,
          OF open_writer_open])
  from n pos 1 close_open_writer 2 open_writer_open 3 show ?thesis by (intro conjI)
qed

text \<open>
  C8 as stated fails: at 3 frames per second the frame duration is 333333 microseconds,
  not 333 milliseconds; the remainder below a millisecond is kept.
\<close>

theorem frame_duration_3fps_not_333ms:
  "map_sum id frame_duration (VideoFrameWriter_new raw_storage 320 240 3) = Inr 333333 \<and>
   map_sum id frame_duration (VideoFrameWriter_new raw_storage 320 240 3) \<noteq> Inr (milliseconds 333)"
  by (simp add: VideoFrameWriter_new_def duration_div_def milliseconds_def signed_divide_int_def)

text \<open>
  C10. The constructor divides by \<open>frames_per_second\<close> without a test: with the value 0
  the division is a division by zero, and with every other value the object is
  constructed.
\<close>

theorem constructor_divides_unguarded:
  "(fps = 0 \<longrightarrow> VideoFrameWriter_new raw w h fps = Inl DivisionByZero) \<and>
   (fps \<noteq> 0 \<longrightarrow> (\<exists>s. VideoFrameWriter_new raw w h fps = Inr s))"
  by (simp add: VideoFrameWriter_new_def duration_div_def)

theorem constructor_divides_unguarded_witness:
  "VideoFrameWriter_new raw_storage 320 240 0 = Inl DivisionByZero \<and>
   (\<exists>s. VideoFrameWriter_new raw_storage 320 240 20 = Inr s)"
  using constructor_divides_unguarded [of 0 raw_storage 320 240]
    constructor_divides_unguarded [of 20 raw_storage 320 240]
  by simp

subsection \<open>Pixel conversion\<close>










subsection \<open>The throttle\<close>

lemma write_unfold:
  "write P f s =
     (if accepts s f
      then s\<lparr>last_timestamp := timestamp f,
             frame_info_stream :=
               ofs_put_line (frame_info_line P (frame_index s) f) (frame_info_stream s),
             frame_index := frame_index s + 1,
             frame_buffer := frame_buffer s @ [f],
             frames_available := True\<rparr>
      else s)"
  by (simp add: write_def notify_def enqueue_def log_frame_def)

lemmas run_eval = write_unfold accepts_def consumer_step_def end_drain_def forward_def
  doWrite_def convert_pixels_def notify_def close_begin_def enqueue_def log_frame_def
  ofs_put_line_def ofs_close_def










subsection \<open>Joining and closing\<close>

lemma join_returns:
  "\<not> is_open s \<Longrightarrow> (\<forall>cnt. frame_writer_thread s = Running Waiting cnt \<longrightarrow> frames_available s)
     \<Longrightarrow> \<exists>s'. join s = Some s'"
proof (induction s rule: join.induct)
  case (1 s)
  show ?case
  proof (cases "frame_writer_thread s")
    case (Running p cnt)
    with "1.prems" have go: "\<not> (p = Waiting \<and> \<not> frames_available s)" by simp
    have closed: "\<not> is_open (consumer_step s)" using "1.prems" by simp
    have "frame_writer_thread (consumer_step s) \<noteq> Running Waiting c" for c
      using Running "1.prems"(1) go
      by (cases p)
        (auto simp: consumer_step_def end_drain_def forward_def doWrite_def
          split: option.splits list.splits sum.splits)
    with "1.IH" [OF Running go closed] obtain s' where "join (consumer_step s) = Some s'"
      by auto
    with Running go show ?thesis by (auto simp: join.simps [of s])
  qed (simp_all add: join.simps [of s])
qed

lemma close_returns: "\<exists>s'. close s = Some s'"
proof (cases "is_open s")
  case True
  have "\<exists>s'. join (notify (close_begin s)) = Some s'"
    by (rule join_returns) (simp_all add: notify_def close_begin_def)
  with True show ?thesis by (simp add: close_def)
next
  case False
  then show ?thesis by (simp add: close_def)
qed

lemma close_is_open: "close s = Some s' \<Longrightarrow> \<not> is_open s'"
  by (auto simp: close_def notify_def close_begin_def dest!: join_is_open split: if_splits)

lemma close_last_timestamp: "close s = Some s' \<Longrightarrow> last_timestamp s' = last_timestamp s"
  by (auto simp: close_def notify_def close_begin_def dest!: join_last_timestamp
      split: if_splits)

lemma close_frame_index: "close s = Some s' \<Longrightarrow> frame_index s' = frame_index s"
  by (auto simp: close_def notify_def close_begin_def dest!: join_frame_index split: if_splits)

lemma close_stream:
  "close s = Some s' \<Longrightarrow>
     frame_info_stream s' =
       (if is_open s then ofs_close (frame_info_stream s) else frame_info_stream s)"
  by (auto simp: close_def notify_def close_begin_def dest!: join_frame_info_stream
      split: if_splits)

lemma close_thread:
  "close s = Some s' \<Longrightarrow> is_open s \<Longrightarrow> frame_writer_thread s' = NotAThread"
  by (auto simp: close_def dest: join_thread)

subsection \<open>The first frame after \<^verbatim>\<open>open\<close>\<close>

text \<open>
  C5, as amended. \<^verbatim>\<open>open\<close> always returns, and leaves \<^verbatim>\<open>last_timestamp\<close> one frame
  duration before \<^verbatim>\<open>start_time\<close>; therefore the first frame submitted after it is
  accepted if and only if its timestamp is not before \<^verbatim>\<open>start_time\<close>.
\<close>

theorem first_frame_after_open:
  "\<exists>s1. open now s = Some s1 \<and> start_time s1 = now \<and>
         frame_duration s1 = frame_duration s \<and>
         last_timestamp s1 = start_time s1 - frame_duration s1 \<and>
         (accepts s1 f \<longleftrightarrow> start_time s1 \<le> timestamp f)"
proof -
  from close_returns obtain s' where c: "close s = Some s'" by blast
  then have "open now s = Some (open_body now s')" by (simp add: open_def)
  moreover have "frame_duration s' = frame_duration s" using c by (rule close_frame_duration)
  ultimately show ?thesis by (auto simp: open_body_def accepts_def)
qed

theorem first_frame_after_open_witness:
  "\<exists>s1. open 5000000 fresh_writer = Some s1 \<and> start_time s1 = 5000000 \<and>
         accepts s1 (frame_at 5000000)"
  using first_frame_after_open [of 5000000 fresh_writer "frame_at 5000000"]
  by (auto simp: frame_at_def)

text \<open>
  C5 as stated fails: a first frame whose timestamp is one microsecond before
  \<^verbatim>\<open>start_time\<close> is dropped.
\<close>

theorem first_frame_before_start_is_dropped:
  "VideoFrameWriter_new raw_storage 320 240 10 = Inr fresh_writer \<and>
   open 5000000 fresh_writer = Some open_writer \<and>
   timestamp (frame_at 4999999) = 4999999 \<and>
   \<not> accepts open_writer (frame_at 4999999) \<and>
   write plain_printers (frame_at 4999999) open_writer = open_writer"
  by (simp add: fresh_writer_new open_writer_open write_def accepts_def open_writer_def
      frame_at_def)

subsection \<open>Decimal output\<close>











subsection \<open>The side file during a session\<close>



lemma accepted_Cons: "accepted P (a # as) s = accepted P [a] s @ accepted P as (act P a s)"
  by (simp split: option.splits)


lemma join_vw:
  "join s = Some s' \<Longrightarrow> vw_width s' = vw_width s \<and> vw_height s' = vw_height s"
  using join_keeps [where g = vw_width and s = s and s' = s']
    join_keeps [where g = vw_height and s = s and s' = s'] by simp

lemma close_vw:
  "close s = Some s' \<Longrightarrow> vw_width s' = vw_width s \<and> vw_height s' = vw_height s"
  by (auto simp: close_def notify_def close_begin_def dest!: join_vw split: if_splits)

lemma open_headers:
  assumes "between_calls s" and "open now s = Some s1"
  shows "frame_info_stream s1 =
           \<lparr>stream_open = True, stream_error = False,
            file_lines = [''width='' @ show_int (vw_width s), ''height='' @ show_int (vw_height s)]\<rparr>"
    and "frame_index s1 = 0"
proof -
  from assms(2) obtain s' where c: "close s = Some s'" and s1: "s1 = open_body now s'"
    by (auto simp: open_def split: option.splits)
  have "\<not> stream_open (frame_info_stream s')"
    using assms(1) close_stream [OF c] by (auto simp: between_calls_def ofs_close_def)
  then show "frame_info_stream s1 =
           \<lparr>stream_open = True, stream_error = False,
            file_lines = [''width='' @ show_int (vw_width s), ''height='' @ show_int (vw_height s)]\<rparr>"
    using close_vw [OF c] by (simp add: s1 open_body_def ofs_open_def ofs_put_line_def)
  show "frame_index s1 = 0" by (simp add: s1 open_body_def)
qed


lemma length_info_lines [simp]: "length (info_lines P i fs) = length fs"
  by (induction fs arbitrary: i) simp_all

subsection \<open>The steps of the consumer, by program point\<close>

lemma consumer_step_LoopHead:
  "frame_writer_thread s = Running LoopHead cnt \<Longrightarrow>
     consumer_step s =
       (if is_open s then s\<lparr>frame_writer_thread := Running Waiting cnt\<rparr>
        else s\<lparr>frame_writer_thread := Returned\<rparr>)"
  by (simp add: consumer_step_def)

lemma consumer_step_Waiting:
  "frame_writer_thread s = Running Waiting cnt \<Longrightarrow>
     consumer_step s =
       (if frames_available s then s\<lparr>frame_writer_thread := Running Draining cnt\<rparr> else s)"
  by (simp add: consumer_step_def)

lemma consumer_step_Draining:
  "frame_writer_thread s = Running Draining cnt \<Longrightarrow>
     consumer_step s =
       (case frame_buffer s of
          [] \<Rightarrow> s\<lparr>frame_writer_thread := Running (Popped None) cnt\<rparr>
        | frame # rest \<Rightarrow>
            s\<lparr>frame_buffer := rest, frame_writer_thread := Running (Popped (Some frame)) cnt\<rparr>)"
  by (simp add: consumer_step_def)

lemma consumer_step_Popped:
  "frame_writer_thread s = Running (Popped x) cnt \<Longrightarrow>
     consumer_step s =
       (case x of
          None \<Rightarrow> end_drain cnt s
        | Some frame \<Rightarrow> if width frame = 0 then end_drain cnt s else forward frame cnt s)"
  by (cases x) (simp_all add: consumer_step_def)

lemma consumer_step_ended:
  "frame_writer_thread s = NotAThread \<or> frame_writer_thread s = Returned \<or>
   frame_writer_thread s = Failed e \<Longrightarrow> consumer_step s = s"
  by (auto simp: consumer_step_def)

lemma forward_thread:
  "frame_writer_thread (forward frame cnt s) =
     (case convert_pixels frame of Inl e \<Rightarrow> Failed e | Inr px \<Rightarrow> Running Draining (cnt + 1))"
  by (simp add: forward_def doWrite_def split: sum.splits)

subsection \<open>The state between calls\<close>

lemma between_calls_new: "VideoFrameWriter_new raw w h fps = Inr s \<Longrightarrow> between_calls s"
  by (auto simp: VideoFrameWriter_new_def between_calls_def split: sum.splits)

lemma between_calls_close:
  assumes "between_calls s" and "close s = Some s'"
  shows "between_calls s'"
proof (cases "is_open s")
  case True
  from assms(2) have "\<not> is_open s'" by (rule close_is_open)
  moreover have "frame_writer_thread s' = NotAThread" using assms(2) True by (rule close_thread)
  moreover have "\<not> stream_open (frame_info_stream s')"
    using close_stream [OF assms(2)] True by (simp add: ofs_close_def)
  ultimately show ?thesis by (simp add: between_calls_def)
next
  case False
  with assms show ?thesis by (simp add: close_def)
qed

lemma between_calls_open:
  assumes "between_calls s" and "open now s = Some s'"
  shows "between_calls s'"
proof -
  from assms(2) obtain c where "s' = open_body now c"
    by (auto simp: open_def split: option.splits)
  then have "is_open s'" "frame_writer_thread s' = Running LoopHead 0"
    by (simp_all add: open_body_def)
  moreover have "stream_open (frame_info_stream s')"
    by (simp add: open_headers(1) [OF assms])
  ultimately show ?thesis by (simp add: between_calls_def)
qed

lemma between_calls_write: "between_calls s \<Longrightarrow> between_calls (write P f s)"
  by (simp add: between_calls_def write_unfold ofs_put_line_def)

lemma between_calls_consumer_step:
  assumes "between_calls s"
  shows "between_calls (consumer_step s)"
proof (cases "frame_writer_thread s")
  case (Running p cnt)
  with assms have o: "is_open s" by (auto simp: between_calls_def split: if_splits)
  have "frame_writer_thread (consumer_step s) \<noteq> NotAThread \<and>
        frame_writer_thread (consumer_step s) \<noteq> Returned"
  proof (cases p)
    case LoopHead
    with Running o show ?thesis by (simp add: consumer_step_LoopHead)
  next
    case Waiting
    with Running show ?thesis by (simp add: consumer_step_Waiting)
  next
    case Draining
    with Running show ?thesis
      by (cases "frame_buffer s") (simp_all add: consumer_step_Draining)
  next
    case (Popped x)
    with Running show ?thesis
      by (cases x)
        (simp_all add: consumer_step_Popped end_drain_def forward_thread split: sum.splits)
  qed
  with assms o show ?thesis by (simp add: between_calls_def)
qed (use assms in \<open>simp_all add: consumer_step_ended\<close>)



























subsection \<open>A session of more than a million frames\<close>


lemma length_steady_frames [simp]: "length (steady_frames t n) = n"
  by (induction n arbitrary: t) simp_all



subsection \<open>Closing and opening\<close>

lemma close_closed: "\<not> is_open s \<Longrightarrow> close s = Some s"
  by (simp add: close_def)

lemma consumer_step_thread:
  "frame_writer_thread s = Running p cnt \<Longrightarrow> frame_writer_thread (consumer_step s) \<noteq> NotAThread"
proof (cases p)
  case LoopHead
  then show "frame_writer_thread s = Running p cnt \<Longrightarrow> ?thesis"
    by (simp add: consumer_step_LoopHead)
next
  case Waiting
  then show "frame_writer_thread s = Running p cnt \<Longrightarrow> ?thesis"
    by (simp add: consumer_step_Waiting)
next
  case Draining
  then show "frame_writer_thread s = Running p cnt \<Longrightarrow> ?thesis"
    by (cases "frame_buffer s") (simp_all add: consumer_step_Draining)
next
  case (Popped x)
  then show "frame_writer_thread s = Running p cnt \<Longrightarrow> ?thesis"
    by (cases x)
      (simp_all add: consumer_step_Popped end_drain_def forward_thread split: sum.splits)
qed

lemma join_runs_consumer:
  "join s = Some s' \<Longrightarrow> frame_writer_thread s \<noteq> NotAThread \<Longrightarrow>
     \<exists>m. ended (frame_writer_thread ((consumer_step ^^ m) s)) \<and>
         s' = ((consumer_step ^^ m) s)\<lparr>frame_writer_thread := NotAThread\<rparr>"
proof (induction s rule: join.induct)
  case (1 s)
  show ?case
  proof (cases "frame_writer_thread s")
    case NotAThread
    with "1.prems" show ?thesis by simp
  next
    case Returned
    with "1.prems" show ?thesis
      by (intro exI [of _ 0]) (simp add: join.simps [of s] ended_def)
  next
    case (Failed e)
    with "1.prems" show ?thesis
      by (intro exI [of _ 0]) (simp add: join.simps [of s] ended_def)
  next
    case (Running p cnt)
    with "1.prems" have go: "\<not> (p = Waiting \<and> \<not> frames_available s)"
      and j: "join (consumer_step s) = Some s'"
      by (auto simp: join.simps [of s] split: if_splits)
    from "1.IH" [OF Running go j consumer_step_thread [OF Running]] obtain m
      where e: "ended (frame_writer_thread ((consumer_step ^^ m) (consumer_step s)))"
        and s': "s' = ((consumer_step ^^ m) (consumer_step s))\<lparr>frame_writer_thread := NotAThread\<rparr>"
      by blast
    have "(consumer_step ^^ Suc m) s = (consumer_step ^^ m) (consumer_step s)"
      by (simp add: funpow_swap1)
    with e s' show ?thesis by (intro exI [of _ "Suc m"]) (simp only: simp_thms)
  qed
qed

text \<open>
  C7. \<^verbatim>\<open>close\<close> on a closed writer returns at once and changes nothing. \<^verbatim>\<open>close\<close>
  always returns, leaves the writer closed, and a second \<^verbatim>\<open>close\<close> changes nothing. On
  an open writer it closes the stream, clears \<^verbatim>\<open>is_open\<close>, sets the flag, and joins the
  thread: the state it returns is the state in which the thread, running on its own from
  there, has ended (with everything it has popped, forwarded and left in the queue until
  then), and the handle is not a thread any more. \<^verbatim>\<open>open\<close> is this \<^verbatim>\<open>close\<close> followed by
  the reset: the writer is open, \<^verbatim>\<open>start_time\<close> is the clock reading, \<^verbatim>\<open>last_timestamp\<close>
  one frame duration before it, \<^verbatim>\<open>frame_index\<close> is 0, the flag is clear, a new thread
  starts with \<^verbatim>\<open>count = 0\<close>, what the encoder has received and the queue are as \<^verbatim>\<open>close\<close>
  left them, and (for a writer that is between calls) the stream is open on a file that
  holds the two header lines. The destructor is \<^verbatim>\<open>close\<close>.
\<close>

theorem close_idempotent_open_resets:
  "(\<not> is_open s \<longrightarrow> close s = Some s) \<and>
   (\<exists>s1. close s = Some s1 \<and> \<not> is_open s1 \<and> close s1 = Some s1 \<and>
      (is_open s \<longrightarrow>
         frame_writer_thread s1 = NotAThread \<and> \<not> stream_open (frame_info_stream s1)) \<and>
      (is_open s \<and> frame_writer_thread s \<noteq> NotAThread \<longrightarrow>
         (\<exists>m. ended (frame_writer_thread ((consumer_step ^^ m) (notify (close_begin s)))) \<and>
              s1 = ((consumer_step ^^ m) (notify (close_begin s)))
                     \<lparr>frame_writer_thread := NotAThread\<rparr>)) \<and>
      (between_calls s \<longrightarrow> between_calls s1) \<and>
      open now s = Some (open_body now s1) \<and>
      is_open (open_body now s1) \<and>
      start_time (open_body now s1) = now \<and>
      last_timestamp (open_body now s1) = now - frame_duration s \<and>
      frame_index (open_body now s1) = 0 \<and>
      frame_writer_thread (open_body now s1) = Running LoopHead 0 \<and>
      \<not> frames_available (open_body now s1) \<and>
      sink (open_body now s1) = sink s1 \<and>
      frame_buffer (open_body now s1) = frame_buffer s1 \<and>
      (between_calls s \<longrightarrow>
         between_calls (open_body now s1) \<and>
         frame_info_stream (open_body now s1) =
           \<lparr>stream_open = True, stream_error = False,
            file_lines = [''width='' @ show_int (vw_width s),
                          ''height='' @ show_int (vw_height s)]\<rparr>)) \<and>
   destructor s = close s"
proof -
  from close_returns obtain s1 where c: "close s = Some s1" by blast
  have closed: "\<not> is_open s1" using c by (rule close_is_open)
  then have again: "close s1 = Some s1" by (rule close_closed)
  have joined: "frame_writer_thread s1 = NotAThread \<and> \<not> stream_open (frame_info_stream s1)"
    if "is_open s"
    using close_thread [OF c that] close_stream [OF c] that by (simp add: ofs_close_def)
  have ran: "\<exists>m. ended (frame_writer_thread ((consumer_step ^^ m) (notify (close_begin s)))) \<and>
              s1 = ((consumer_step ^^ m) (notify (close_begin s)))
                     \<lparr>frame_writer_thread := NotAThread\<rparr>"
    if h: "is_open s \<and> frame_writer_thread s \<noteq> NotAThread"
  proof -
    from h c have j: "join (notify (close_begin s)) = Some s1" by (simp add: close_def)
    from h have "frame_writer_thread (notify (close_begin s)) \<noteq> NotAThread"
      by (simp add: notify_def close_begin_def)
    with j show ?thesis by (rule join_runs_consumer)
  qed
  have o: "open now s = Some (open_body now s1)" using c by (simp add: open_def)
  have d: "frame_duration s1 = frame_duration s" using c by (rule close_frame_duration)
  have b1: "between_calls s1" if "between_calls s" using that c by (rule between_calls_close)
  have b2: "between_calls (open_body now s1) \<and>
         frame_info_stream (open_body now s1) =
           \<lparr>stream_open = True, stream_error = False,
            file_lines = [''width='' @ show_int (vw_width s),
                          ''height='' @ show_int (vw_height s)]\<rparr>"
    if "between_calls s"
    using between_calls_open [OF that o] open_headers(1) [OF that o] by simp
  have fields: "is_open (open_body now s1) \<and>
      start_time (open_body now s1) = now \<and>
      last_timestamp (open_body now s1) = now - frame_duration s \<and>
      frame_index (open_body now s1) = 0 \<and>
      frame_writer_thread (open_body now s1) = Running LoopHead 0 \<and>
      \<not> frames_available (open_body now s1) \<and>
      sink (open_body now s1) = sink s1 \<and>
      frame_buffer (open_body now s1) = frame_buffer s1"
    by (simp add: open_body_def d)
  have first: "\<not> is_open s \<longrightarrow> close s = Some s" by (simp add: close_closed)
  have last: "destructor s = close s" by (simp add: destructor_def)
  from c closed again joined ran o b1 b2 fields
  have "\<exists>s1. close s = Some s1 \<and> \<not> is_open s1 \<and> close s1 = Some s1 \<and>
      (is_open s \<longrightarrow>
         frame_writer_thread s1 = NotAThread \<and> \<not> stream_open (frame_info_stream s1)) \<and>
      (is_open s \<and> frame_writer_thread s \<noteq> NotAThread \<longrightarrow>
         (\<exists>m. ended (frame_writer_thread ((consumer_step ^^ m) (notify (close_begin s)))) \<and>
              s1 = ((consumer_step ^^ m) (notify (close_begin s)))
                     \<lparr>frame_writer_thread := NotAThread\<rparr>)) \<and>
      (between_calls s \<longrightarrow> between_calls s1) \<and>
      open now s = Some (open_body now s1) \<and>
      is_open (open_body now s1) \<and>
      start_time (open_body now s1) = now \<and>
      last_timestamp (open_body now s1) = now - frame_duration s \<and>
      frame_index (open_body now s1) = 0 \<and>
      frame_writer_thread (open_body now s1) = Running LoopHead 0 \<and>
      \<not> frames_available (open_body now s1) \<and>
      sink (open_body now s1) = sink s1 \<and>
      frame_buffer (open_body now s1) = frame_buffer s1 \<and>
      (between_calls s \<longrightarrow>
         between_calls (open_body now s1) \<and>
         frame_info_stream (open_body now s1) =
           \<lparr>stream_open = True, stream_error = False,
            file_lines = [''width='' @ show_int (vw_width s),
                          ''height='' @ show_int (vw_height s)]\<rparr>)"
    by (intro exI [of _ s1] conjI impI) simp_all
  with first last show ?thesis by (intro conjI)
qed

lemma busy_writer_eval:
  "is_open busy_writer" "frame_writer_thread busy_writer = Running Draining 0"
  "frame_buffer busy_writer = [frame_at 5000000]" "sink busy_writer = []"
  "between_calls busy_writer" "vw_width busy_writer = 320" "vw_height busy_writer = 240"
  "frame_duration busy_writer = 100000"
  by (simp_all add: busy_writer_def run_eval between_calls_def open_writer_def frame_at_def)

lemma close_busy_writer:
  "map_option sink (close busy_writer) = Some [(pixels rgb_frame, 2, 1, 0)]"
  "map_option frame_buffer (close busy_writer) = Some []"
  by (simp_all add: busy_writer_def run_eval close_def join.simps open_writer_def frame_at_def
      rgb_frame_def)

theorem close_idempotent_open_resets_witness:
  "\<not> is_open fresh_writer \<and> close fresh_writer = Some fresh_writer \<and>
   is_open busy_writer \<and> frame_writer_thread busy_writer \<noteq> NotAThread \<and>
   between_calls busy_writer \<and>
   frame_buffer busy_writer = [frame_at 5000000] \<and> sink busy_writer = [] \<and>
   (\<exists>s1. close busy_writer = Some s1 \<and> \<not> is_open s1 \<and>
         frame_writer_thread s1 = NotAThread \<and> between_calls s1 \<and>
         (\<exists>m. ended (frame_writer_thread
                  ((consumer_step ^^ m) (notify (close_begin busy_writer)))) \<and>
              s1 = ((consumer_step ^^ m) (notify (close_begin busy_writer)))
                     \<lparr>frame_writer_thread := NotAThread\<rparr>) \<and>
         sink s1 = [(pixels rgb_frame, 2, 1, 0)] \<and> frame_buffer s1 = [] \<and>
         open 6000000 busy_writer = Some (open_body 6000000 s1) \<and>
         between_calls (open_body 6000000 s1) \<and>
         sink (open_body 6000000 s1) = [(pixels rgb_frame, 2, 1, 0)] \<and>
         frame_buffer (open_body 6000000 s1) = [] \<and>
         frame_index (open_body 6000000 s1) = 0 \<and>
         frame_writer_thread (open_body 6000000 s1) = Running LoopHead 0 \<and>
         file_lines (frame_info_stream (open_body 6000000 s1))
           = [''width=320'', ''height=240''] \<and>
         last_timestamp (open_body 6000000 s1) = 5900000)"
proof -
  have f: "\<not> is_open fresh_writer" by (simp add: fresh_writer_def)
  note e = busy_writer_eval
  have t: "frame_writer_thread busy_writer \<noteq> NotAThread" by (simp add: e)
  from close_idempotent_open_resets [of fresh_writer 6000000] f
  have 1: "close fresh_writer = Some fresh_writer" by blast
  from close_idempotent_open_resets [of busy_writer 6000000, THEN conjunct2, THEN conjunct1]
  obtain s1 where c: "close busy_writer = Some s1" and o: "\<not> is_open s1"
    and j: "is_open busy_writer \<longrightarrow> frame_writer_thread s1 = NotAThread \<and>
              \<not> stream_open (frame_info_stream s1)"
    and r: "is_open busy_writer \<and> frame_writer_thread busy_writer \<noteq> NotAThread \<longrightarrow>
         (\<exists>m. ended (frame_writer_thread
                  ((consumer_step ^^ m) (notify (close_begin busy_writer)))) \<and>
              s1 = ((consumer_step ^^ m) (notify (close_begin busy_writer)))
                     \<lparr>frame_writer_thread := NotAThread\<rparr>)"
    and b1: "between_calls busy_writer \<longrightarrow> between_calls s1"
    and op: "open 6000000 busy_writer = Some (open_body 6000000 s1)"
    and ix: "frame_index (open_body 6000000 s1) = 0"
    and lt: "last_timestamp (open_body 6000000 s1) = 6000000 - frame_duration busy_writer"
    and th: "frame_writer_thread (open_body 6000000 s1) = Running LoopHead 0"
    and sk: "sink (open_body 6000000 s1) = sink s1"
    and fb: "frame_buffer (open_body 6000000 s1) = frame_buffer s1"
    and b2: "between_calls busy_writer \<longrightarrow>
         between_calls (open_body 6000000 s1) \<and>
         frame_info_stream (open_body 6000000 s1) =
           \<lparr>stream_open = True, stream_error = False,
            file_lines = [''width='' @ show_int (vw_width busy_writer),
                          ''height='' @ show_int (vw_height busy_writer)]\<rparr>"
    by (elim exE conjE)
  from close_busy_writer c have s1: "sink s1 = [(pixels rgb_frame, 2, 1, 0)]"
    "frame_buffer s1 = []" by simp_all
  from j e(1) have 2: "frame_writer_thread s1 = NotAThread" by simp
  from r e(1) t have 3: "\<exists>m. ended (frame_writer_thread
                  ((consumer_step ^^ m) (notify (close_begin busy_writer)))) \<and>
              s1 = ((consumer_step ^^ m) (notify (close_begin busy_writer)))
                     \<lparr>frame_writer_thread := NotAThread\<rparr>" by simp
  from b1 e(5) have 4: "between_calls s1" by simp
  from b2 e(5) have 5: "between_calls (open_body 6000000 s1)"
    and 6: "file_lines (frame_info_stream (open_body 6000000 s1))
           = [''width=320'', ''height=240'']"
    by (simp_all add: e show_int_320)
  from lt have 7: "last_timestamp (open_body 6000000 s1) = 5900000" by (simp add: e)
  have 8: "sink (open_body 6000000 s1) = [(pixels rgb_frame, 2, 1, 0)]"
    "frame_buffer (open_body 6000000 s1) = []"
    by (simp_all only: sk fb s1)
  from c o 2 4 3 s1 op 5 8 ix th 6 7
  have "\<exists>s1. close busy_writer = Some s1 \<and> \<not> is_open s1 \<and>
         frame_writer_thread s1 = NotAThread \<and> between_calls s1 \<and>
         (\<exists>m. ended (frame_writer_thread
                  ((consumer_step ^^ m) (notify (close_begin busy_writer)))) \<and>
              s1 = ((consumer_step ^^ m) (notify (close_begin busy_writer)))
                     \<lparr>frame_writer_thread := NotAThread\<rparr>) \<and>
         sink s1 = [(pixels rgb_frame, 2, 1, 0)] \<and> frame_buffer s1 = [] \<and>
         open 6000000 busy_writer = Some (open_body 6000000 s1) \<and>
         between_calls (open_body 6000000 s1) \<and>
         sink (open_body 6000000 s1) = [(pixels rgb_frame, 2, 1, 0)] \<and>
         frame_buffer (open_body 6000000 s1) = [] \<and>
         frame_index (open_body 6000000 s1) = 0 \<and>
         frame_writer_thread (open_body 6000000 s1) = Running LoopHead 0 \<and>
         file_lines (frame_info_stream (open_body 6000000 s1))
           = [''width=320'', ''height=240''] \<and>
         last_timestamp (open_body 6000000 s1) = 5900000"
    by (intro exI [of _ s1] conjI)
  with f 1 e(1) t e(5) e(3) e(4) show ?thesis by (intro conjI)
qed

subsection \<open>Runs without a consumer\<close>

lemma act_no_consumer:
  assumes "\<forall>p cnt. frame_writer_thread s \<noteq> Running p cnt"
  shows "frame_writer_thread (act P a s) = frame_writer_thread s"
    and "sink (act P a s) = sink s"
    and "frame_buffer (act P a s) = frame_buffer s @ accepted P [a] s"
proof -
  have c: "consumer_step s = s"
    using assms by (cases "frame_writer_thread s") (auto simp: consumer_step_ended)
  show "frame_writer_thread (act P a s) = frame_writer_thread s"
    by (cases a) (simp_all add: c write_unfold enqueue_def log_frame_def notify_def close_begin_def)
  show "sink (act P a s) = sink s"
    by (cases a) (simp_all add: c write_unfold enqueue_def log_frame_def notify_def close_begin_def)
  show "frame_buffer (act P a s) = frame_buffer s @ accepted P [a] s"
    by (cases a) (simp_all add: c write_unfold enqueue_def log_frame_def notify_def close_begin_def)
qed

lemma run_no_consumer:
  assumes "\<forall>p cnt. frame_writer_thread s \<noteq> Running p cnt"
  shows "frame_writer_thread (run P as s) = frame_writer_thread s \<and>
         sink (run P as s) = sink s \<and>
         frame_buffer (run P as s) = frame_buffer s @ accepted P as s"
  using assms
proof (induction as arbitrary: s)
  case Nil
  show ?case by simp
next
  case (Cons a as)
  note st = act_no_consumer [OF Cons.prems, of P a]
  have "\<forall>p cnt. frame_writer_thread (act P a s) \<noteq> Running p cnt"
    using Cons.prems by (simp add: st)
  from Cons.IH [OF this] show ?case
    by (simp only: run.simps accepted_Cons [of P a as s] st) simp
qed


subsection \<open>Writing after \<^verbatim>\<open>close\<close>\<close>






subsection \<open>A frame with an unsupported number of channels\<close>

text \<open>
  C4. When the consumer pops a frame of non-zero width whose number of channels is neither
  3 nor 4, the thread ends with the exception of line 149: nothing is passed to the
  encoder for this frame, the frame is not put back, and however the run continues
  before the next \<^verbatim>\<open>open\<close>, the thread stays ended and nothing more is passed to the
  encoder.
\<close>

theorem unsupported_channels_fatal:
  "frame_writer_thread s = Running Draining cnt \<and> frame_buffer s = f # rest \<and>
   width f \<noteq> 0 \<and> channels f \<noteq> 3 \<and> channels f \<noteq> 4 \<longrightarrow>
     convert_pixels f = Inl UnsupportedChannels \<and>
     frame_writer_thread (consumer_step (consumer_step s)) = Failed UnsupportedChannels \<and>
     sink (consumer_step (consumer_step s)) = sink s \<and>
     frame_buffer (consumer_step (consumer_step s)) = rest \<and>
     frame_writer_thread (run P as (consumer_step (consumer_step s)))
       = Failed UnsupportedChannels \<and>
     sink (run P as (consumer_step (consumer_step s))) = sink s"
proof
  assume h: "frame_writer_thread s = Running Draining cnt \<and> frame_buffer s = f # rest \<and>
   width f \<noteq> 0 \<and> channels f \<noteq> 3 \<and> channels f \<noteq> 4"
  let ?s1 = "consumer_step s" and ?s2 = "consumer_step (consumer_step s)"
  from h have c: "convert_pixels f = Inl UnsupportedChannels" by (simp add: convert_pixels_def)
  from h have s1: "?s1 = s\<lparr>frame_buffer := rest,
                            frame_writer_thread := Running (Popped (Some f)) cnt\<rparr>"
    by (simp add: consumer_step_Draining)
  then have "frame_writer_thread ?s1 = Running (Popped (Some f)) cnt" by simp
  from consumer_step_Popped [OF this] h c
  have s2: "?s2 = ?s1\<lparr>frame_writer_thread := Failed UnsupportedChannels\<rparr>"
    by (simp add: forward_def)
  have th: "frame_writer_thread ?s2 = Failed UnsupportedChannels"
    and sk: "sink ?s2 = sink s" and fb: "frame_buffer ?s2 = rest"
    by (simp_all add: s2) (simp_all add: s1)
  have "\<forall>p cnt. frame_writer_thread ?s2 \<noteq> Running p cnt" by (simp add: th)
  from run_no_consumer [OF this, of P as]
  have "frame_writer_thread (run P as ?s2) = Failed UnsupportedChannels \<and>
        sink (run P as ?s2) = sink s"
    by (simp add: th sk)
  with c th sk fb show "convert_pixels f = Inl UnsupportedChannels \<and>
     frame_writer_thread ?s2 = Failed UnsupportedChannels \<and>
     sink ?s2 = sink s \<and>
     frame_buffer ?s2 = rest \<and>
     frame_writer_thread (run P as ?s2) = Failed UnsupportedChannels \<and>
     sink (run P as ?s2) = sink s"
    by (elim conjE) (intro conjI; assumption)
qed


lemma draining_writer_eval:
  "frame_writer_thread draining_writer = Running Draining 0"
  "frame_buffer draining_writer = [gray_frame, frame_at 5100000]"
  "sink draining_writer = []"
  by (simp_all add: draining_writer_def write_unfold accepts_def open_writer_def gray_frame_def
      frame_at_def consumer_step_def)

theorem unsupported_channels_fatal_witness:
  "frame_writer_thread draining_writer = Running Draining 0 \<and>
   frame_buffer draining_writer = [gray_frame, frame_at 5100000] \<and>
   width gray_frame \<noteq> 0 \<and> channels gray_frame \<noteq> 3 \<and> channels gray_frame \<noteq> 4 \<and>
   frame_writer_thread (consumer_step (consumer_step draining_writer))
     = Failed UnsupportedChannels \<and>
   sink (run plain_printers [Consumer, Write (frame_at 5200000), Consumer, Consumer]
          (consumer_step (consumer_step draining_writer))) = []"
proof -
  have h: "frame_writer_thread draining_writer = Running Draining 0 \<and>
   frame_buffer draining_writer = [gray_frame, frame_at 5100000] \<and>
   width gray_frame \<noteq> 0 \<and> channels gray_frame \<noteq> 3 \<and> channels gray_frame \<noteq> 4"
    by (simp add: draining_writer_eval) (simp add: gray_frame_def)
  note T = unsupported_channels_fatal
    [where s = draining_writer and cnt = 0 and f = gray_frame and rest = "[frame_at 5100000]"
       and P = plain_printers
       and as = "[Consumer, Write (frame_at 5200000), Consumer, Consumer]",
     THEN mp, OF h]
  from T have 1: "frame_writer_thread (consumer_step (consumer_step draining_writer))
     = Failed UnsupportedChannels"
    by (elim conjE)
  from T have "sink (run plain_printers [Consumer, Write (frame_at 5200000), Consumer, Consumer]
          (consumer_step (consumer_step draining_writer))) = sink draining_writer"
    by (elim conjE)
  then have 2: "sink (run plain_printers [Consumer, Write (frame_at 5200000), Consumer, Consumer]
          (consumer_step (consumer_step draining_writer))) = []"
    by (simp only: draining_writer_eval)
  from h 1 2 show ?thesis by (elim conjE) (intro conjI; assumption)
qed

subsection \<open>What the consumer forwards\<close>


lemma length_sink_calls [simp]: "length (sink_calls i fs) = length fs"
  by (induction fs arbitrary: i) simp_all














subsection \<open>What the encoder receives in a session\<close>
















subsection \<open>Accepted frames that the encoder does not receive\<close>




end
